theory Spec2Isabelle
  imports Main
begin

section \<open>Gray-release routing: a shallow embedding of enableGrayVersion/index.js\<close>

text \<open>
  The module decides per user whether in-app navigation goes to the pages of the
  \<open>grayVersion\<close> sub-package, keeps the decision in the storage slot \<open>GRAY_VERSION\<close>,
  and rewrites the urls of \<open>navigateTo\<close>, \<open>redirectTo\<close> and \<open>reLaunch\<close>.
  JavaScript strings are modelled as \<open>string\<close>, optional object fields as \<open>option\<close>,
  exceptions as the left summand of a sum type, and the effects on storage and on the
  host's navigation primitives as an explicit state with an event trace.
\<close>

subsection \<open>Strings\<close>

text \<open>\<open>s.startsWith(p)\<close>.\<close>

definition startsWith :: "string \<Rightarrow> string \<Rightarrow> bool" where
  "startsWith s p = (take (length p) s = p)"

text \<open>\<open>s.split('/')\<close>: the empty string splits into one empty segment.\<close>

fun split_acc :: "char \<Rightarrow> string \<Rightarrow> string \<Rightarrow> string list" where
  "split_acc sep cur [] = [rev cur]"
| "split_acc sep cur (c # cs) =
     (if c = sep then rev cur # split_acc sep [] cs else split_acc sep (c # cur) cs)"

definition split :: "char \<Rightarrow> string \<Rightarrow> string list" where
  "split sep s = split_acc sep [] s"

text \<open>\<open>xs.join(sep)\<close>: the empty array joins to the empty string.\<close>

fun join :: "string \<Rightarrow> string list \<Rightarrow> string" where
  "join sep [] = []"
| "join sep [x] = x"
| "join sep (x # y # ys) = x @ sep @ join sep (y # ys)"

text \<open>\<open>s.replace('/', '')\<close> with a string pattern: only the first occurrence goes.\<close>

fun replace_first :: "char \<Rightarrow> string \<Rightarrow> string" where
  "replace_first c [] = []"
| "replace_first c (d # ds) = (if d = c then ds else d # replace_first c ds)"

subsection \<open>Data model\<close>

text \<open>A boolean field that may be absent is read by its truthiness.\<close>

fun truthy :: "bool option \<Rightarrow> bool" where
  "truthy None = False"
| "truthy (Some b) = b"

text \<open>The typedef \<open>UserInfo\<close>; only two of its fields are read.\<close>

record UserInfo =
  areaCode :: "string option"
  mobilePhone :: "string option"

text \<open>
  The typedef \<open>GrayRule\<close>, together with the two fields the module adds to the object it
  keeps in storage (\<open>isTest\<close>, \<open>isGrayVersion\<close>). Every field may be absent. The
  field \<open>areaCode\<close> of a rule is a list; that of a user is written \<open>UserInfo.areaCode\<close>.
\<close>

record GrayRule =
  isOpen :: "bool option"
  areaCode :: "string list option"
  phonePrefix :: "string option"
  whiteList :: "string list option"
  all :: "bool option"
  isTest :: "bool option"
  isGrayVersion :: "bool option"

text \<open>The object \<open>{}\<close>; the empty string read from an unset storage key has no fields either.\<close>

definition noFields :: GrayRule where
  "noFields = \<lparr>isOpen = None, areaCode = None, phonePrefix = None, whiteList = None,
     all = None, isTest = None, isGrayVersion = None\<rparr>"

text \<open>The object \<open>{ isOpen: false }\<close>.\<close>

definition closedRule :: GrayRule where
  "closedRule = noFields\<lparr>isOpen := Some False\<rparr>"

definition SUBPACKAGES_ROOT :: string where
  "SUBPACKAGES_ROOT = ''grayVersion''"

subsection \<open>Rule evaluation\<close>

text \<open>Destructuring defaults: \<open>x = d\<close> takes \<open>d\<close> when the field is absent.\<close>

fun orDefault :: "'a option \<Rightarrow> 'a \<Rightarrow> 'a" where
  "orDefault None d = d"
| "orDefault (Some x) d = x"

text \<open>\<open>userInfo?.areaCode || ''\<close> and \<open>userInfo?.mobilePhone || ''\<close>.\<close>

fun fieldOrEmpty :: "UserInfo option \<Rightarrow> (UserInfo \<Rightarrow> string option) \<Rightarrow> string" where
  "fieldOrEmpty None f = []"
| "fieldOrEmpty (Some u) f = orDefault (f u) []"

definition checkIsGrayVersionTargetUser :: "GrayRule \<Rightarrow> UserInfo option \<Rightarrow> bool" where
  "checkIsGrayVersionTargetUser rule userInfo =
     (let isOpen' = orDefault (isOpen rule) False;
          areaCode' = orDefault (areaCode rule) [];
          phonePrefix' = orDefault (phonePrefix rule) [];
          whiteList' = orDefault (whiteList rule) [];
          all' = orDefault (all rule) False
      in if \<not> isOpen' then False
         else if all' then True
         else if length areaCode' \<ge> 1 \<and> areaCode' ! 0 = ''all'' then True
         else let userAreaCode' = fieldOrEmpty userInfo UserInfo.areaCode in
           if list_ex (\<lambda>code. startsWith userAreaCode' code) areaCode' then True
           else let userMobilePhone = fieldOrEmpty userInfo mobilePhone in
             if length phonePrefix' > 0 \<and> startsWith userMobilePhone phonePrefix' then True
             else if userMobilePhone \<in> set whiteList' then True
             else False)"

subsection \<open>The host: storage, page stack, navigation primitives\<close>

datatype js_error = TypeError | NetworkError | SyntaxError

text \<open>The three navigation primitives of \<open>wx\<close> that \<open>wxProxy\<close> wraps.\<close>

datatype route_api = NavigateTo | RedirectTo | ReLaunch

text \<open>
  The argument object of a navigation primitive: \<open>url\<close> (path and query string in one
  string), the marker \<open>notProxy\<close>, and all other properties (callbacks, events) by name.
\<close>

record 'p nav_object =
  url :: string
  notProxy :: "bool option"
  others :: "(string \<times> 'p) list"

text \<open>What the module does to the host, in the order it does it.\<close>

datatype 'p event = SetStorage GrayRule | RouteCall route_api "'p nav_object"

text \<open>
  A page of the stack: its \<open>route\<close>, and \<open>options\<close>, the query parameters it was opened
  with. The module reads \<open>route\<close> only.
\<close>

record page =
  route :: string
  options :: "(string \<times> string) list"

text \<open>
  The module-level toggle \<open>isGrayVersionOpen\<close>, the storage slot \<open>GRAY_VERSION\<close>
  (\<open>None\<close> when the key is unset), the result of \<open>getCurrentPages()\<close>, the \<open>query\<close> of
  \<open>wx.getEnterOptionsSync()\<close> in key order, and the trace of storage writes and of calls
  to the original navigation primitives.
\<close>

record 'p world =
  isGrayVersionOpen :: bool
  storage :: "GrayRule option"
  pages :: "page list"
  enterQuery :: "(string \<times> string) list"
  trace :: "'p event list"

text \<open>
  \<open>wx.getStorageSync('GRAY_VERSION')\<close> gives the stored object, or the empty string for
  an unset key; destructuring, property reads and \<open>Object.assign\<close> find no field in it.
\<close>

fun fieldsOf :: "GrayRule option \<Rightarrow> GrayRule" where
  "fieldsOf None = noFields"
| "fieldsOf (Some r) = r"

definition getStorageSync :: "'p world \<Rightarrow> GrayRule option" where
  "getStorageSync st = storage st"

definition setStorageSync :: "GrayRule \<Rightarrow> 'p world \<Rightarrow> 'p world" where
  "setStorageSync v st = st\<lparr>storage := Some v, trace := trace st @ [SetStorage v]\<rparr>"

text \<open>Calling an original navigation primitive of the host.\<close>

definition wxRouteApi :: "route_api \<Rightarrow> 'p nav_object \<Rightarrow> 'p world \<Rightarrow> 'p world" where
  "wxRouteApi api object st = st\<lparr>trace := trace st @ [RouteCall api object]\<rparr>"

definition isGrayVersionSync :: "'p world \<Rightarrow> bool" where
  "isGrayVersionSync st =
     (let grayVersionStorage = getStorageSync st
      in truthy (isGrayVersion (fieldsOf grayVersionStorage)))"

subsection \<open>Path resolution\<close>

text \<open>\<open>stack.pop()\<close>: on an empty array it returns \<open>undefined\<close> and changes nothing.\<close>

fun pop :: "'a list \<Rightarrow> 'a list" where
  "pop [] = []"
| "pop (x # xs) = butlast (x # xs)"

function fixLoop :: "nat \<Rightarrow> string list \<Rightarrow> string list \<Rightarrow> string list" where
  "fixLoop i parts stack =
     (if i < length parts then
        (if parts ! i = ''.'' then fixLoop (i + 1) parts stack
         else if parts ! i = ''..'' then fixLoop (i + 1) parts (pop stack)
         else fixLoop (i + 1) parts (stack @ [parts ! i]))
      else stack)"
  by pat_completeness auto
termination
  by (relation "measure (\<lambda>(i, parts, stack). length parts - i)") auto

declare fixLoop.simps [simp del]

definition fixRelativeUrl :: "string \<Rightarrow> string \<Rightarrow> string" where
  "fixRelativeUrl base relative =
     (if startsWith relative ''/'' then replace_first CHR ''/'' relative
      else let stack = split CHR ''/'' base;
               parts = split CHR ''/'' relative;
               stack = pop stack
           in join ''/'' (fixLoop 0 parts stack))"

text \<open>
  The resolution as the specification words it: an absolute target loses its leading
  separator; otherwise the current path without its last segment is a stack, and every
  segment of the target is applied to it in turn.
\<close>

definition applySegment :: "string list \<Rightarrow> string \<Rightarrow> string list" where
  "applySegment stack seg =
     (if seg = ''.'' then stack
      else if seg = ''..'' then (if stack = [] then [] else butlast stack)
      else stack @ [seg])"

definition resolve :: "string \<Rightarrow> string \<Rightarrow> string" where
  "resolve currentPath target =
     (case target of
        c # remainder \<Rightarrow>
          if c = CHR ''/'' then remainder
          else join ''/'' (foldl applySegment (butlast (split CHR ''/'' currentPath))
                 (split CHR ''/'' target))
      | [] \<Rightarrow> join ''/'' (foldl applySegment (butlast (split CHR ''/'' currentPath))
                 (split CHR ''/'' target)))"

subsection \<open>The navigation interceptor\<close>

text \<open>
  The two prefix operations of \<open>newWxRouteApi\<close>: removing \<open>grayPrefix\<close> from a url that
  starts with it, and putting the sub-package root and a separator in front of a url
  (the url it delegates for a gray page is the separator followed by that).
\<close>

definition stripCanaryPrefix :: "string \<Rightarrow> string" where
  "stripCanaryPrefix url' =
     (let grayPrefix = SUBPACKAGES_ROOT @ ''/''
      in if startsWith url' grayPrefix then drop (length grayPrefix) url' else url')"

definition withCanaryPrefix :: "string \<Rightarrow> string" where
  "withCanaryPrefix url' = SUBPACKAGES_ROOT @ ''/'' @ url'"

text \<open>
  \<open>routeApiProxy(wxRouteApi)(object)\<close>. The list \<open>GRAY_PAGES\<close> is imported from
  \<open>grayPages.js\<close> and is a parameter here. Reading \<open>route\<close> of the current page raises a
  \<open>TypeError\<close> when the page stack is empty.
\<close>

definition routeApiProxy ::
  "string list \<Rightarrow> route_api \<Rightarrow> 'p nav_object \<Rightarrow> 'p world \<Rightarrow> js_error + 'p world" where
  "routeApiProxy GRAY_PAGES api object st =
     (if truthy (notProxy object) then Inr (wxRouteApi api object st)
      else case pages st of
        [] \<Rightarrow> Inl TypeError
      | _ # _ \<Rightarrow>
          let currentPage = last (pages st);
              source = route currentPage;
              url1 = fixRelativeUrl source (url object);
              url2 = stripCanaryPrefix url1;
              isGrayPage = list_ex (\<lambda>p. startsWith url2 p) GRAY_PAGES;
              isGrayVersion' = isGrayVersionSync st;
              url3 = (if isGrayPage \<and> isGrayVersion' then ''/'' @ withCanaryPrefix url2
                      else ''/'' @ url2)
          in Inr (wxRouteApi api (object\<lparr>url := url3\<rparr>) st))"

subsection \<open>The redirect trigger\<close>

record RedirectToGrayPageParams =
  grayPages :: "string list option"
  userInfo :: "UserInfo option"

text \<open>\<open>Object.assign({}, rule, { isGrayVersion: isTargetUser })\<close>.\<close>

definition assignDecision :: "GrayRule option \<Rightarrow> bool \<Rightarrow> GrayRule" where
  "assignDecision rule isTargetUser = (fieldsOf rule)\<lparr>isGrayVersion := Some isTargetUser\<rparr>"

text \<open>\<open>currentPage?.route || ''\<close> for the last page of the stack.\<close>

definition currentRoute :: "'p world \<Rightarrow> string" where
  "currentRoute st = (case pages st of [] \<Rightarrow> [] | _ # _ \<Rightarrow> route (last (pages st)))"

text \<open>The query of the enter options as \<open>?k1=v1&k2=v2\<close>, or nothing when it has no key.\<close>

definition urlParamsOf :: "(string \<times> string) list \<Rightarrow> string" where
  "urlParamsOf query =
     (if length query > 0 then ''?'' @ join ''&'' (map (\<lambda>v. fst v @ ''='' @ snd v) query)
      else [])"

text \<open>
  The prefix removal of \<open>redirectToGrayPage\<close>: a route that starts with the sub-package
  root loses as many characters as the root has, and one more.
\<close>

definition removeRoot :: "string \<Rightarrow> string" where
  "removeRoot url' =
     (if startsWith url' SUBPACKAGES_ROOT then drop (length SUBPACKAGES_ROOT + 1) url' else url')"

text \<open>
  \<open>redirectToGrayPage\<close>. A toggle that is on means \<open>enableGrayVersion\<close> has replaced
  \<open>wx\<close> by its proxy, so \<open>wx.redirectTo\<close> is \<open>routeApiProxy\<close> around the original
  (which is why the imported list \<open>GRAY_PAGES\<close> is a parameter here too).
\<close>

definition redirectToGrayPage ::
  "string list \<Rightarrow> RedirectToGrayPageParams \<Rightarrow> 'p world \<Rightarrow> js_error + (bool \<times> 'p world)" where
  "redirectToGrayPage GRAY_PAGES params st =
     (let grayPages' = orDefault (grayPages params) [];
          userInfo' = userInfo params
      in if \<not> isGrayVersionOpen st then Inr (False, st)
         else
           let rule = getStorageSync st;
               isTargetUser = checkIsGrayVersionTargetUser (fieldsOf rule) userInfo';
               isGrayVersion' = isGrayVersionSync st;
               isRedirect = (isTargetUser \<noteq> isGrayVersion');
               st1 = setStorageSync (assignDecision rule isTargetUser) st;
               url0 = currentRoute st1;
               isGrayPage = list_ex (\<lambda>page. startsWith url0 page) grayPages'
           in if \<not> isGrayPage then Inr (False, st1)
              else
                let urlParams = urlParamsOf (enterQuery st1);
                    url1 = removeRoot url0
                in if isRedirect then
                     (if isGrayPage \<and> isTargetUser then
                        (case routeApiProxy GRAY_PAGES RedirectTo
                                \<lparr>url = ''/'' @ SUBPACKAGES_ROOT @ ''/'' @ url1 @ urlParams,
                                 notProxy = Some True, others = []\<rparr> st1 of
                           Inl e \<Rightarrow> Inl e
                         | Inr st2 \<Rightarrow> Inr (True, st2))
                      else if isGrayPage \<and> \<not> isTargetUser then
                        (case routeApiProxy GRAY_PAGES RedirectTo
                                \<lparr>url = ''/'' @ url1 @ urlParams,
                                 notProxy = Some True, others = []\<rparr> st1 of
                           Inl e \<Rightarrow> Inl e
                         | Inr st2 \<Rightarrow> Inr (True, st2))
                      else Inr (False, st1))
                   else Inr (False, st1))"

subsection \<open>The rule source\<close>

text \<open>
  What \<open>await fetch(...)\<close> and \<open>await res.json()\<close> can come to: \<open>fetch\<close> rejects,
  \<open>json()\<close> rejects on a payload that is not JSON, the payload is \<open>null\<close> (reading
  \<open>code\<close> raises), or it is an object with fields \<open>code\<close> and \<open>data\<close>.
\<close>

datatype fetch_outcome =
    FetchRejects
  | JsonRejects
  | JsonNull
  | JsonBody "int option" GrayRule

text \<open>How the promise returned by \<open>getGrayVersionRule\<close> settles.\<close>

datatype settled = Resolved GrayRule | Rejected js_error

text \<open>The body of the \<open>try\<close> block; \<open>Inl\<close> is an exception that reaches \<open>catch\<close>.\<close>

definition fetchAndStore :: "fetch_outcome \<Rightarrow> 'p world \<Rightarrow> js_error + (settled \<times> 'p world)" where
  "fetchAndStore outcome st =
     (case outcome of
        FetchRejects \<Rightarrow> Inl NetworkError
      | JsonRejects \<Rightarrow> Inl SyntaxError
      | JsonNull \<Rightarrow> Inl TypeError
      | JsonBody code data \<Rightarrow>
          if code = Some 200 then Inr (Resolved data, setStorageSync data st)
          else Inr (Resolved closedRule, st))"

definition getGrayVersionRule :: "fetch_outcome \<Rightarrow> 'p world \<Rightarrow> settled \<times> 'p world" where
  "getGrayVersionRule outcome st =
     (let grayVersionRule = fieldsOf (getStorageSync st)
      in if truthy (isTest grayVersionRule) then (Resolved grayVersionRule, st)
         else case fetchAndStore outcome st of
                Inr r \<Rightarrow> r
              | Inl error \<Rightarrow> (Resolved closedRule, st))"

subsection \<open>Notions used in the statements\<close>

text \<open>
  The values \<open>redirectToGrayPage\<close> works with: the verdict it computes from the stored
  rule and the user, the object it persists, and the argument of its one call of
  \<open>wx.redirectTo\<close>.
\<close>

definition freshVerdict :: "RedirectToGrayPageParams \<Rightarrow> 'p world \<Rightarrow> bool" where
  "freshVerdict params st =
     checkIsGrayVersionTargetUser (fieldsOf (getStorageSync st)) (userInfo params)"

definition decision :: "RedirectToGrayPageParams \<Rightarrow> 'p world \<Rightarrow> GrayRule" where
  "decision params st = assignDecision (getStorageSync st) (freshVerdict params st)"

definition corrective :: "RedirectToGrayPageParams \<Rightarrow> 'p world \<Rightarrow> 'p nav_object" where
  "corrective params st =
     \<lparr>url = ''/'' @ (if freshVerdict params st then SUBPACKAGES_ROOT @ ''/'' else [])
             @ removeRoot (currentRoute st) @ urlParamsOf (enterQuery st),
      notProxy = Some True, others = []\<rparr>"

text \<open>The query string of a url: everything from the first question mark on.\<close>

definition queryString :: "string \<Rightarrow> string" where
  "queryString u = dropWhile (\<lambda>c. c \<noteq> CHR ''?'') u"

text \<open>
  A target keeps its query string under \<open>fixRelativeUrl\<close> when it is absolute, or when no
  segment from the first one with a question mark on is \<open>.\<close> or \<open>..\<close>.
\<close>

definition queryKept :: "string \<Rightarrow> bool" where
  "queryKept target =
     (startsWith target ''/'' \<or>
      list_all (\<lambda>seg. seg \<noteq> ''.'' \<and> seg \<noteq> ''..'')
        (dropWhile (\<lambda>seg. CHR ''?'' \<notin> set seg) (split CHR ''/'' target)))"

subsection \<open>Example states\<close>

text \<open>
  A session with the feature on, a stored rule that is open for area codes starting with
  \<open>11\<close>, a stored decision "not gray", launched on the page \<open>pages/a/index\<close> with two
  query parameters.
\<close>

definition openRule :: GrayRule where
  "openRule = noFields\<lparr>isOpen := Some True, areaCode := Some [''11''], isGrayVersion := Some False\<rparr>"

definition session :: "unit world" where
  "session = \<lparr>isGrayVersionOpen = True, storage = Some openRule,
     pages = [\<lparr>route = ''pages/a/index'', options = [(''id'', ''7''), (''from'', ''share'')]\<rparr>],
     enterQuery = [(''id'', ''7''), (''from'', ''share'')], trace = []\<rparr>"

text \<open>
  The same session launched on the page \<open>pages/a/index\<close> of the gray sub-package, with the
  stored decision "gray".
\<close>

definition graySession :: "unit world" where
  "graySession = \<lparr>isGrayVersionOpen = True,
     storage = Some (openRule\<lparr>isGrayVersion := Some True\<rparr>),
     pages = [\<lparr>route = ''grayVersion/pages/a/index'', options = [(''id'', ''7'')]\<rparr>],
     enterQuery = [(''id'', ''7'')], trace = []\<rparr>"

text \<open>
  A session launched on the index page without query parameters, in which the user has
  gone on to \<open>pages/a/index\<close> with the parameter \<open>id=7\<close>.
\<close>

definition browsing :: "unit world" where
  "browsing = \<lparr>isGrayVersionOpen = True, storage = Some openRule,
     pages = [\<lparr>route = ''pages/index/index'', options = []\<rparr>,
              \<lparr>route = ''pages/a/index'', options = [(''id'', ''7'')]\<rparr>],
     enterQuery = [], trace = []\<rparr>"

definition shanghaiUser :: UserInfo where
  "shanghaiUser = \<lparr>UserInfo.areaCode = Some ''310000'', mobilePhone = Some ''13900139000''\<rparr>"

definition beijingUser :: UserInfo where
  "beijingUser = \<lparr>UserInfo.areaCode = Some ''110105'', mobilePhone = Some ''13800138000''\<rparr>"

text \<open>The arguments of \<open>redirectToGrayPage\<close> after a login, for the pages under \<open>pages/a\<close>.\<close>

definition loginOf :: "UserInfo \<Rightarrow> RedirectToGrayPageParams" where
  "loginOf user = \<lparr>grayPages = Some [''pages/a''], userInfo = Some user\<rparr>"

text \<open>
  Two navigation calls without the marker: one to a sibling page with a query string, and
  one whose query string has segments \<open>..\<close> of its own.
\<close>

definition detailCall :: "unit nav_object" where
  "detailCall = \<lparr>url = ''../a/detail?id=1'', notProxy = None, others = [(''events'', ())]\<rparr>"

definition backCall :: "unit nav_object" where
  "backCall = \<lparr>url = ''detail?back=../../home'', notProxy = None, others = []\<rparr>"

section \<open>Properties\<close>

subsection \<open>Rule evaluation: the closed rule\<close>

text \<open>
  C3. For every rule whose \<open>isOpen\<close> field is false or absent, and for every user-attribute
  object (also an absent one), \<open>checkIsGrayVersionTargetUser\<close> returns false, whatever the
  fields \<open>all\<close>, \<open>areaCode\<close>, \<open>phonePrefix\<close> and \<open>whiteList\<close> hold.
\<close>

theorem closed_rule_never_targets:
  assumes "isOpen rule = None \<or> isOpen rule = Some False"
  shows "checkIsGrayVersionTargetUser rule user = False"
  using assms by (auto simp: checkIsGrayVersionTargetUser_def Let_def)

theorem closed_rule_never_targets_witness:
  "(isOpen (noFields\<lparr>isOpen := Some False, all := Some True, areaCode := Some [''all'']\<rparr>) = None
     \<or> isOpen (noFields\<lparr>isOpen := Some False, all := Some True, areaCode := Some [''all'']\<rparr>) = Some False)
   \<and> checkIsGrayVersionTargetUser
        (noFields\<lparr>isOpen := Some False, all := Some True, areaCode := Some [''all'']\<rparr>)
        (Some \<lparr>UserInfo.areaCode = Some ''110105'', mobilePhone = Some ''13800138000''\<rparr>) = False"
  using closed_rule_never_targets
    [of "noFields\<lparr>isOpen := Some False, all := Some True, areaCode := Some [''all'']\<rparr>"
        "Some \<lparr>UserInfo.areaCode = Some ''110105'', mobilePhone = Some ''13800138000''\<rparr>"]
  by (simp add: noFields_def)

subsection \<open>Rule evaluation: the sentinel \<open>all\<close>\<close>

text \<open>
  C8, as the specification states it: the rule that has only the field \<open>areaCode\<close>,
  holding \<open>["all", "110000"]\<close>, makes every user a target. It does not: \<open>isOpen\<close> is
  absent, so the rule is closed.
\<close>

theorem all_sentinel_needs_open_counterexample:
  "checkIsGrayVersionTargetUser (noFields\<lparr>areaCode := Some [''all'', ''110000'']\<rparr>) None = False"
  by (simp add: checkIsGrayVersionTargetUser_def noFields_def)

text \<open>
  C8, amended: for an open rule whose \<open>areaCode\<close> list is non-empty and starts with the
  sentinel \<open>all\<close>, \<open>checkIsGrayVersionTargetUser\<close> returns true for every user-attribute
  object, also one without \<open>areaCode\<close> and an absent one, whatever follows the first
  element of the list.
\<close>

theorem all_sentinel_first:
  assumes "truthy (isOpen rule)" and "areaCode rule = Some (''all'' # codes)"
  shows "checkIsGrayVersionTargetUser rule user = True"
  using assms by (cases "isOpen rule") (simp_all add: checkIsGrayVersionTargetUser_def Let_def)

theorem all_sentinel_first_witness:
  "truthy (isOpen (noFields\<lparr>isOpen := Some True, areaCode := Some [''all'', ''110000'']\<rparr>))
   \<and> areaCode (noFields\<lparr>isOpen := Some True, areaCode := Some [''all'', ''110000'']\<rparr>)
       = Some (''all'' # [''110000''])
   \<and> checkIsGrayVersionTargetUser
        (noFields\<lparr>isOpen := Some True, areaCode := Some [''all'', ''110000'']\<rparr>)
        (Some \<lparr>UserInfo.areaCode = None, mobilePhone = Some ''13800138000''\<rparr>) = True"
  using all_sentinel_first
    [of "noFields\<lparr>isOpen := Some True, areaCode := Some [''all'', ''110000'']\<rparr>" "[''110000'']"
        "Some \<lparr>UserInfo.areaCode = None, mobilePhone = Some ''13800138000''\<rparr>"]
  by (simp add: noFields_def)

subsection \<open>Path resolution: the loop and the stack of segments\<close>

lemma pop_butlast: "pop xs = butlast xs"
  by (cases xs) simp_all

lemma applySegment_apply:
  "applySegment stack seg =
     (if seg = ''.'' then stack else if seg = ''..'' then pop stack else stack @ [seg])"
  by (simp add: applySegment_def pop_butlast)

lemma fixLoop_step:
  "i < length parts \<Longrightarrow>
     fixLoop i parts stack = fixLoop (Suc i) parts (applySegment stack (parts ! i))"
  by (subst fixLoop.simps) (simp add: applySegment_apply)

lemma fixLoop_done: "\<not> i < length parts \<Longrightarrow> fixLoop i parts stack = stack"
  by (subst fixLoop.simps) simp

lemma fixLoop_foldl: "fixLoop i parts stack = foldl applySegment stack (drop i parts)"
proof (induction i parts stack rule: fixLoop.induct)
  case (1 i parts stack)
  show ?case
  proof (cases "i < length parts")
    case True
    have d: "drop i parts = parts ! i # drop (Suc i) parts"
      using True by (simp add: Cons_nth_drop_Suc)
    have ih: "fixLoop (Suc i) parts (applySegment stack (parts ! i))
        = foldl applySegment (applySegment stack (parts ! i)) (drop (Suc i) parts)"
    proof -
      consider (dot) "parts ! i = ''.''" | (up) "parts ! i = ''..''"
        | (name) "parts ! i \<noteq> ''.''" "parts ! i \<noteq> ''..''"
        by blast
      then show ?thesis
      proof cases
        case dot
        have "applySegment stack (parts ! i) = stack"
          using dot by (simp add: applySegment_apply)
        then show ?thesis using "1.IH"(1) [OF True dot] by simp
      next
        case up
        have "applySegment stack (parts ! i) = pop stack"
          using up by (simp add: applySegment_apply)
        then show ?thesis using "1.IH"(2) [OF True _ up] up by simp
      next
        case name
        have "applySegment stack (parts ! i) = stack @ [parts ! i]"
          using name by (simp add: applySegment_apply)
        then show ?thesis using "1.IH"(3) [OF True name] by simp
      qed
    qed
    show ?thesis
      by (simp add: fixLoop_step [OF True] ih d)
  next
    case False
    then show ?thesis by (simp add: fixLoop_done)
  qed
qed

lemma fixRelativeUrl_absolute: "fixRelativeUrl base (CHR ''/'' # r) = r"
  by (simp add: fixRelativeUrl_def startsWith_def)

lemma fixRelativeUrl_relative:
  "\<not> startsWith relative ''/'' \<Longrightarrow>
     fixRelativeUrl base relative =
       join ''/'' (foldl applySegment (butlast (split CHR ''/'' base)) (split CHR ''/'' relative))"
  by (simp add: fixRelativeUrl_def fixLoop_foldl pop_butlast)

text \<open>
  C6. \<open>fixRelativeUrl\<close> is the resolution the specification describes (\<open>resolve\<close>): a
  target with a leading separator gives what follows the separator; otherwise the current
  path is split, its last segment dropped, the segments of the target are applied in
  order (\<open>.\<close> nothing, \<open>..\<close> pop, anything else push) and the stack is joined. The two
  examples of the specification hold, and popping past the root returns a path.
\<close>

theorem fixRelativeUrl_resolves:
  "fixRelativeUrl currentPath target = resolve currentPath target
   \<and> fixRelativeUrl ''pages/a/index'' ''../b/index'' = ''pages/b/index''
   \<and> fixRelativeUrl ''pages/a/index'' ''/pages/c/index'' = ''pages/c/index''
   \<and> fixRelativeUrl ''index'' ''../../b'' = ''b''"
proof -
  have "fixRelativeUrl currentPath target = resolve currentPath target"
    by (cases target)
       (auto simp: fixRelativeUrl_def resolve_def startsWith_def fixLoop_foldl pop_butlast)
  moreover have "fixRelativeUrl ''pages/a/index'' ''../b/index'' = ''pages/b/index''"
    by (simp add: fixRelativeUrl_relative startsWith_def split_def applySegment_apply)
  moreover have "fixRelativeUrl ''pages/a/index'' ''/pages/c/index'' = ''pages/c/index''"
    by (simp add: fixRelativeUrl_absolute)
  moreover have "fixRelativeUrl ''index'' ''../../b'' = ''b''"
    by (simp add: fixRelativeUrl_relative startsWith_def split_def applySegment_apply)
  ultimately show ?thesis by blast
qed

subsection \<open>The canary prefix\<close>

lemma stripCanaryPrefix_withCanaryPrefix: "stripCanaryPrefix (withCanaryPrefix p) = p"
  by (simp add: stripCanaryPrefix_def withCanaryPrefix_def startsWith_def SUBPACKAGES_ROOT_def)

text \<open>
  C7. For every path that does not carry the canary prefix, adding the prefix and then
  stripping it gives the path back, both directly and on the way the interceptor takes
  (the prefixed absolute url goes through \<open>fixRelativeUrl\<close> before the prefix is stripped);
  and stripping such a path changes nothing.
\<close>

theorem canary_prefix_round_trip:
  assumes "\<not> startsWith p (SUBPACKAGES_ROOT @ ''/'')"
  shows "stripCanaryPrefix (withCanaryPrefix p) = p
       \<and> stripCanaryPrefix (fixRelativeUrl source (''/'' @ withCanaryPrefix p)) = p
       \<and> stripCanaryPrefix p = p"
  using assms
  by (simp add: stripCanaryPrefix_withCanaryPrefix fixRelativeUrl_absolute)
     (simp add: stripCanaryPrefix_def)

theorem canary_prefix_round_trip_witness:
  "\<not> startsWith ''pages/a/index'' (SUBPACKAGES_ROOT @ ''/'')
   \<and> stripCanaryPrefix (withCanaryPrefix ''pages/a/index'') = ''pages/a/index''
   \<and> stripCanaryPrefix (fixRelativeUrl ''pages/b/index'' (''/'' @ withCanaryPrefix ''pages/a/index''))
       = ''pages/a/index''
   \<and> stripCanaryPrefix ''pages/a/index'' = ''pages/a/index''"
proof -
  have h: "\<not> startsWith ''pages/a/index'' (SUBPACKAGES_ROOT @ ''/'')"
    by (simp add: startsWith_def SUBPACKAGES_ROOT_def)
  show ?thesis
    using h canary_prefix_round_trip [OF h, of "''pages/b/index''"] by simp
qed

subsection \<open>The rule source\<close>

text \<open>
  C5. The promise of \<open>getGrayVersionRule\<close> always resolves and never rejects. When a
  request is made (the stored rule is not a test rule): a rejected \<open>fetch\<close>, a payload
  that cannot be parsed or read, and a body whose \<open>code\<close> is not 200 all resolve to
  \<open>{ isOpen: false }\<close>; a body with \<open>code\<close> 200 resolves to its \<open>data\<close>.
\<close>

theorem getGrayVersionRule_never_rejects:
  "(\<exists>rule. fst (getGrayVersionRule outcome st) = Resolved rule)
   \<and> (\<not> truthy (isTest (fieldsOf (storage st))) \<longrightarrow>
        fst (getGrayVersionRule FetchRejects st) = Resolved closedRule
      \<and> fst (getGrayVersionRule JsonRejects st) = Resolved closedRule
      \<and> fst (getGrayVersionRule JsonNull st) = Resolved closedRule
      \<and> (code \<noteq> Some 200 \<longrightarrow>
           fst (getGrayVersionRule (JsonBody code data) st) = Resolved closedRule)
      \<and> fst (getGrayVersionRule (JsonBody (Some 200) data) st) = Resolved data)"
  by (cases outcome)
     (auto simp: getGrayVersionRule_def fetchAndStore_def getStorageSync_def Let_def)

theorem getGrayVersionRule_never_rejects_witness:
  "\<not> truthy (isTest (fieldsOf (storage session)))
   \<and> Some 500 \<noteq> Some (200 :: int)
   \<and> fst (getGrayVersionRule FetchRejects session) = Resolved closedRule
   \<and> fst (getGrayVersionRule (JsonBody (Some 500) openRule) session) = Resolved closedRule
   \<and> fst (getGrayVersionRule (JsonBody (Some 200) openRule) session) = Resolved openRule"
  using getGrayVersionRule_never_rejects [of FetchRejects session "Some 500" openRule]
  by (simp add: session_def openRule_def noFields_def)

text \<open>
  C10. An outcome of the request other than a body with \<open>code\<close> 200 leaves the state as it
  was: nothing is written to \<open>GRAY_VERSION\<close>, and the fallback \<open>{ isOpen: false }\<close> is only
  returned. A body with \<open>code\<close> 200 makes exactly one write, of the fetched rule.
\<close>

theorem failed_fetch_keeps_storage:
  "((\<forall>data. outcome \<noteq> JsonBody (Some 200) data) \<longrightarrow>
       snd (getGrayVersionRule outcome st) = st)
   \<and> (\<not> truthy (isTest (fieldsOf (storage st))) \<longrightarrow>
        snd (getGrayVersionRule (JsonBody (Some 200) data) st)
          = st\<lparr>storage := Some data, trace := trace st @ [SetStorage data]\<rparr>)"
  by (cases outcome)
     (auto simp: getGrayVersionRule_def fetchAndStore_def getStorageSync_def
        setStorageSync_def Let_def)

theorem failed_fetch_keeps_storage_witness:
  "(\<forall>data. JsonBody (Some 500) closedRule \<noteq> JsonBody (Some 200) data)
   \<and> snd (getGrayVersionRule (JsonBody (Some 500) closedRule) session) = session
   \<and> storage (snd (getGrayVersionRule (JsonBody (Some 500) closedRule) session)) = Some openRule
   \<and> \<not> truthy (isTest (fieldsOf (storage session)))
   \<and> storage (snd (getGrayVersionRule (JsonBody (Some 200) closedRule) session)) = Some closedRule"
  using failed_fetch_keeps_storage [of "JsonBody (Some 500) closedRule" session closedRule]
  by (simp add: session_def openRule_def noFields_def)

subsection \<open>Splitting, joining and the query string\<close>

lemma split_acc_nonempty: "split_acc sep cur s \<noteq> []"
  by (induction s arbitrary: cur) auto

lemma join_Cons: "join sep (x # xs) = (if xs = [] then x else x @ sep @ join sep xs)"
  by (cases xs) simp_all

lemma join_split_acc: "join [sep] (split_acc sep cur s) = rev cur @ s"
  by (induction s arbitrary: cur) (auto simp: join_Cons split_acc_nonempty)

lemma join_split: "join [sep] (split sep s) = s"
  by (simp add: split_def join_split_acc)

lemma split_acc_chars: "x \<in> set (split_acc sep cur s) \<Longrightarrow> set x \<subseteq> set cur \<union> set s"
proof (induction s arbitrary: cur)
  case Nil
  then show ?case by simp
next
  case (Cons c cs)
  show ?case
  proof (cases "c = sep")
    case True
    then have "x = rev cur \<or> x \<in> set (split_acc sep [] cs)"
      using Cons.prems by simp
    then show ?thesis
      using Cons.IH [of "[]"] by auto
  next
    case False
    then have "x \<in> set (split_acc sep (c # cur) cs)"
      using Cons.prems by simp
    then show ?thesis
      using Cons.IH [of "c # cur"] by auto
  qed
qed

lemma split_chars: "x \<in> set (split sep s) \<Longrightarrow> set x \<subseteq> set s"
  using split_acc_chars [of x sep "[]" s] by (simp add: split_def)

lemma join_append:
  "join sep (xs @ ys) =
     (if xs = [] then join sep ys else if ys = [] then join sep xs
      else join sep xs @ sep @ join sep ys)"
  by (induction xs) (auto simp: join_Cons)

lemma join_chars: "set (join sep xs) \<subseteq> set sep \<union> \<Union> (set ` set xs)"
  by (induction xs) (auto simp: join_Cons split: if_splits)

lemma queryString_skip: "CHR ''?'' \<notin> set x \<Longrightarrow> queryString (x @ y) = queryString y"
  by (induction x) (auto simp: queryString_def)

lemma queryString_none: "CHR ''?'' \<notin> set x \<Longrightarrow> queryString x = []"
  using queryString_skip [of x "[]"] by (simp add: queryString_def)

lemma join_no_query:
  assumes "\<forall>s \<in> set xs. CHR ''?'' \<notin> set s"
  shows "CHR ''?'' \<notin> set (join ''/'' xs)"
  using assms join_chars [of "''/''" xs] by auto

lemma queryString_join_skip:
  assumes "\<forall>s \<in> set xs. CHR ''?'' \<notin> set s"
  shows "queryString (join ''/'' (xs @ ys)) = queryString (join ''/'' ys)"
proof -
  have n: "CHR ''?'' \<notin> set (join ''/'' xs)"
    using assms by (rule join_no_query)
  show ?thesis
  proof (cases "xs = [] \<or> ys = []")
    case True
    then show ?thesis using n by (auto simp: queryString_none)
  next
    case False
    then have "join ''/'' (xs @ ys) = (join ''/'' xs @ ''/'') @ join ''/'' ys"
      by (simp add: join_append)
    moreover have "CHR ''?'' \<notin> set (join ''/'' xs @ ''/'')"
      using n by simp
    ultimately show ?thesis
      using queryString_skip [of "join ''/'' xs @ ''/''" "join ''/'' ys"] by simp
  qed
qed

text \<open>Segments that are names are pushed in order; segments without a question mark
  leave a stack without question marks as it is in that respect.\<close>

lemma foldl_applySegment_names:
  "\<forall>seg \<in> set segs. seg \<noteq> ''.'' \<and> seg \<noteq> ''..'' \<Longrightarrow>
     foldl applySegment stack segs = stack @ segs"
  by (induction segs arbitrary: stack) (simp_all add: applySegment_apply)

lemma foldl_applySegment_no_query:
  "\<forall>s \<in> set stack. CHR ''?'' \<notin> set s \<Longrightarrow> \<forall>s \<in> set segs. CHR ''?'' \<notin> set s \<Longrightarrow>
     \<forall>s \<in> set (foldl applySegment stack segs). CHR ''?'' \<notin> set s"
proof (induction segs arbitrary: stack)
  case Nil
  then show ?case by simp
next
  case (Cons seg segs)
  have "\<forall>s \<in> set (applySegment stack seg). CHR ''?'' \<notin> set s"
    using Cons.prems by (auto simp: applySegment_apply pop_butlast dest: in_set_butlastD)
  moreover have "\<forall>s \<in> set segs. CHR ''?'' \<notin> set s"
    using Cons.prems(2) by simp
  ultimately have
    "\<forall>s \<in> set (foldl applySegment (applySegment stack seg) segs). CHR ''?'' \<notin> set s"
    by (rule Cons.IH)
  then show ?case by simp
qed

lemma startsWith_sep: "startsWith s ''/'' = (\<exists>r. s = CHR ''/'' # r)"
  by (cases s) (auto simp: startsWith_def)

lemma startsWith_Cons: "startsWith (a # s) (a # p) = startsWith s p"
  by (simp add: startsWith_def)

lemma queryString_fixRelativeUrl:
  assumes kept: "queryKept target" and plain: "CHR ''?'' \<notin> set base"
  shows "queryString (fixRelativeUrl base target) = queryString target"
proof (cases "startsWith target ''/''")
  case True
  then obtain r where t: "target = CHR ''/'' # r"
    by (auto simp: startsWith_sep)
  have "queryString (''/'' @ r) = queryString r"
    by (rule queryString_skip) simp
  then show ?thesis by (simp add: t fixRelativeUrl_absolute)
next
  case False
  let ?segs = "split CHR ''/'' target"
  let ?P = "\<lambda>seg. CHR ''?'' \<notin> set seg"
  let ?A = "takeWhile ?P ?segs" and ?B = "dropWhile ?P ?segs"
  let ?stack = "butlast (split CHR ''/'' base)"
  have names: "\<forall>seg \<in> set ?B. seg \<noteq> ''.'' \<and> seg \<noteq> ''..''"
    using kept False by (simp add: queryKept_def list_all_iff)
  have stack: "\<forall>s \<in> set ?stack. CHR ''?'' \<notin> set s"
    using plain split_chars [of _ "CHR ''/''" base] by (blast dest: in_set_butlastD)
  have A: "\<forall>s \<in> set ?A. CHR ''?'' \<notin> set s"
    by (auto dest: set_takeWhileD)
  have mid: "\<forall>s \<in> set (foldl applySegment ?stack ?A). CHR ''?'' \<notin> set s"
    using stack A by (rule foldl_applySegment_no_query)
  have "foldl applySegment ?stack (?A @ ?B)
      = foldl applySegment (foldl applySegment ?stack ?A) ?B"
    by (rule foldl_append)
  also have "\<dots> = foldl applySegment ?stack ?A @ ?B"
    using names by (rule foldl_applySegment_names)
  finally have run: "foldl applySegment ?stack ?segs = foldl applySegment ?stack ?A @ ?B"
    by (simp only: takeWhile_dropWhile_id)
  have "fixRelativeUrl base target = join ''/'' (foldl applySegment ?stack ?A @ ?B)"
    using fixRelativeUrl_relative [OF False, of base] run by (simp only:)
  then have "queryString (fixRelativeUrl base target) = queryString (join ''/'' ?B)"
    using queryString_join_skip [OF mid] by (simp only:)
  moreover have "queryString target = queryString (join ''/'' ?B)"
  proof -
    have "join ''/'' (?A @ ?B) = target"
      using join_split [of "CHR ''/''" target] by (simp only: takeWhile_dropWhile_id)
    then have "queryString target = queryString (join ''/'' (?A @ ?B))"
      by (rule arg_cong [symmetric])
    also have "\<dots> = queryString (join ''/'' ?B)"
      using A by (rule queryString_join_skip)
    finally show ?thesis .
  qed
  ultimately show ?thesis by simp
qed

lemma queryString_stripCanaryPrefix: "queryString (stripCanaryPrefix u) = queryString u"
proof (cases "startsWith u (SUBPACKAGES_ROOT @ ''/'')")
  case True
  let ?rest = "drop (length (SUBPACKAGES_ROOT @ ''/'')) u"
  have "take (length (SUBPACKAGES_ROOT @ ''/'')) u @ ?rest = u"
    by (rule append_take_drop_id)
  then have "u = (SUBPACKAGES_ROOT @ ''/'') @ ?rest"
    using True by (simp only: startsWith_def)
  then have "queryString u = queryString ((SUBPACKAGES_ROOT @ ''/'') @ ?rest)"
    by (rule arg_cong)
  also have "\<dots> = queryString ?rest"
    by (rule queryString_skip) (simp add: SUBPACKAGES_ROOT_def)
  finally have "queryString u = queryString ?rest" .
  then show ?thesis using True by (simp add: stripCanaryPrefix_def)
next
  case False
  then show ?thesis by (simp add: stripCanaryPrefix_def)
qed

lemma queryString_prefixed:
  "queryString (withCanaryPrefix u) = queryString u"
  "queryString (CHR ''/'' # u) = queryString u"
  by (simp_all add: queryString_def withCanaryPrefix_def SUBPACKAGES_ROOT_def)

lemma queryString_routed:
  assumes "queryKept target" and "CHR ''?'' \<notin> set base"
  shows "queryString (stripCanaryPrefix (fixRelativeUrl base target)) = queryString target"
  using assms by (simp add: queryString_stripCanaryPrefix queryString_fixRelativeUrl)

subsection \<open>The navigation interceptor\<close>

lemma routeApiProxy_notProxy:
  "truthy (notProxy ob) \<Longrightarrow> routeApiProxy GP api ob st = Inr (wxRouteApi api ob st)"
  by (simp add: routeApiProxy_def)

lemma routeApiProxy_unmarked:
  assumes "\<not> truthy (notProxy ob)" and "pages st \<noteq> []"
  shows "routeApiProxy GP api ob st =
     (let path = stripCanaryPrefix (fixRelativeUrl (route (last (pages st))) (url ob))
      in Inr (wxRouteApi api
           (ob\<lparr>url := (if list_ex (startsWith path) GP \<and> isGrayVersionSync st
                         then ''/'' @ withCanaryPrefix path else ''/'' @ path)\<rparr>) st))"
  using assms by (cases "pages st") (simp_all add: routeApiProxy_def Let_def)

text \<open>
  C4, as the specification states it: every call without the marker is delegated with its
  query string preserved. It is not when the query string has a segment \<open>..\<close> between
  separators: from \<open>pages/a/index\<close>, the target \<open>detail?back=../../home\<close> is delegated
  as \<open>/pages/a/home\<close>, which names another page and has no query string.
\<close>

theorem query_with_dots_lost_counterexample:
  "routeApiProxy [''pages/a''] NavigateTo backCall session
     = Inr (session\<lparr>trace := [RouteCall NavigateTo (backCall\<lparr>url := ''/pages/a/home''\<rparr>)]\<rparr>)
   \<and> queryString (url backCall) = ''?back=../../home''
   \<and> queryString ''/pages/a/home'' = []"
  by code_simp

text \<open>
  C4, amended. A call of \<open>navigateTo\<close>, \<open>redirectTo\<close> or \<open>reLaunch\<close> that carries the
  marker \<open>notProxy\<close> reaches the original primitive with the object it was given. A call
  without the marker, made while there is a current page, reaches the original primitive
  once, with the same object except for \<open>url\<close>: the target is resolved against the route
  of the current page, the canary prefix is stripped if it is there, and the new url is
  the separator, the canary prefix if the stripped path starts with an entry of
  \<open>GRAY_PAGES\<close> and the stored decision is gray, and the stripped path. So, for a stripped
  path that is not prefixed a second time, the delegated url carries the prefix iff the
  page is a gray page and the decision is gray. The query string of the target is the
  query string of the delegated url when the route has no question mark and the target
  is absolute or has, from its first segment with a question mark on, no segment \<open>.\<close> or
  \<open>..\<close>.
\<close>

theorem routeApiProxy_rewrites:
  "(truthy (notProxy ob) \<longrightarrow>
      routeApiProxy GP api ob st = Inr (st\<lparr>trace := trace st @ [RouteCall api ob]\<rparr>))
   \<and> (\<not> truthy (notProxy ob) \<and> pages st \<noteq> [] \<longrightarrow>
        (let path = stripCanaryPrefix (fixRelativeUrl (route (last (pages st))) (url ob));
             gray = (list_ex (startsWith path) GP \<and> isGrayVersionSync st);
             target = (if gray then ''/'' @ withCanaryPrefix path else ''/'' @ path)
         in routeApiProxy GP api ob st
              = Inr (st\<lparr>trace := trace st @ [RouteCall api (ob\<lparr>url := target\<rparr>)]\<rparr>)
            \<and> (\<not> startsWith path (SUBPACKAGES_ROOT @ ''/'') \<longrightarrow>
                 startsWith target (''/'' @ SUBPACKAGES_ROOT @ ''/'') = gray)
            \<and> (queryKept (url ob) \<and> CHR ''?'' \<notin> set (route (last (pages st))) \<longrightarrow>
                 queryString target = queryString (url ob))))"
proof (intro conjI impI)
  assume "truthy (notProxy ob)"
  then show "routeApiProxy GP api ob st = Inr (st\<lparr>trace := trace st @ [RouteCall api ob]\<rparr>)"
    by (simp add: routeApiProxy_notProxy wxRouteApi_def)
next
  assume a: "\<not> truthy (notProxy ob) \<and> pages st \<noteq> []"
  let ?path = "stripCanaryPrefix (fixRelativeUrl (route (last (pages st))) (url ob))"
  let ?gray = "list_ex (startsWith ?path) GP \<and> isGrayVersionSync st"
  let ?target = "if ?gray then ''/'' @ withCanaryPrefix ?path else ''/'' @ ?path"
  have run: "routeApiProxy GP api ob st
      = Inr (st\<lparr>trace := trace st @ [RouteCall api (ob\<lparr>url := ?target\<rparr>)]\<rparr>)"
    using a by (simp add: routeApiProxy_unmarked wxRouteApi_def Let_def)
  have carries: "\<not> startsWith ?path (SUBPACKAGES_ROOT @ ''/'') \<longrightarrow>
      startsWith ?target (''/'' @ SUBPACKAGES_ROOT @ ''/'') = ?gray"
    by (simp add: startsWith_Cons withCanaryPrefix_def) (simp add: startsWith_def)
  have query: "queryKept (url ob) \<and> CHR ''?'' \<notin> set (route (last (pages st))) \<longrightarrow>
      queryString ?target = queryString (url ob)"
    by (simp add: queryString_prefixed queryString_routed)
  show "let path = ?path; gray = (list_ex (startsWith path) GP \<and> isGrayVersionSync st);
            target = (if gray then ''/'' @ withCanaryPrefix path else ''/'' @ path)
        in routeApiProxy GP api ob st
              = Inr (st\<lparr>trace := trace st @ [RouteCall api (ob\<lparr>url := target\<rparr>)]\<rparr>)
            \<and> (\<not> startsWith path (SUBPACKAGES_ROOT @ ''/'') \<longrightarrow>
                 startsWith target (''/'' @ SUBPACKAGES_ROOT @ ''/'') = gray)
            \<and> (queryKept (url ob) \<and> CHR ''?'' \<notin> set (route (last (pages st))) \<longrightarrow>
                 queryString target = queryString (url ob))"
    unfolding Let_def using run carries query by blast
qed

theorem routeApiProxy_rewrites_witness:
  "\<not> truthy (notProxy detailCall) \<and> pages graySession \<noteq> []
   \<and> \<not> startsWith (stripCanaryPrefix
            (fixRelativeUrl (route (last (pages graySession))) (url detailCall)))
          (SUBPACKAGES_ROOT @ ''/'')
   \<and> queryKept (url detailCall) \<and> CHR ''?'' \<notin> set (route (last (pages graySession)))
   \<and> routeApiProxy [''pages/a''] NavigateTo detailCall graySession
       = Inr (graySession\<lparr>trace := [RouteCall NavigateTo
                (detailCall\<lparr>url := ''/grayVersion/pages/a/detail?id=1''\<rparr>)]\<rparr>)
   \<and> queryString ''/grayVersion/pages/a/detail?id=1'' = queryString (url detailCall)
   \<and> truthy (notProxy (detailCall\<lparr>notProxy := Some True\<rparr>))
   \<and> routeApiProxy [''pages/a''] NavigateTo (detailCall\<lparr>notProxy := Some True\<rparr>) graySession
       = Inr (graySession\<lparr>trace := [RouteCall NavigateTo
                (detailCall\<lparr>notProxy := Some True\<rparr>)]\<rparr>)"
proof -
  have h1: "\<not> truthy (notProxy detailCall) \<and> pages graySession \<noteq> []"
    by code_simp
  have h2: "\<not> startsWith (stripCanaryPrefix
        (fixRelativeUrl (route (last (pages graySession))) (url detailCall)))
          (SUBPACKAGES_ROOT @ ''/'')"
    by code_simp
  have h3: "queryKept (url detailCall) \<and> CHR ''?'' \<notin> set (route (last (pages graySession)))"
    by code_simp
  have h4: "truthy (notProxy (detailCall\<lparr>notProxy := Some True\<rparr>))"
    by simp
  have path: "stripCanaryPrefix
      (fixRelativeUrl (route (last (pages graySession))) (url detailCall))
      = ''pages/a/detail?id=1''"
    by code_simp
  have gray: "list_ex (startsWith ''pages/a/detail?id=1'') [''pages/a'']
      \<and> isGrayVersionSync graySession"
    by code_simp
  have empty: "trace graySession = []"
    by (simp add: graySession_def)
  show ?thesis
    using h1 h2 h3 h4 gray empty
      routeApiProxy_rewrites [of detailCall "[''pages/a'']" NavigateTo graySession]
      routeApiProxy_rewrites [of "detailCall\<lparr>notProxy := Some True\<rparr>" "[''pages/a'']"
        NavigateTo graySession]
    by (simp add: Let_def path withCanaryPrefix_def SUBPACKAGES_ROOT_def)
qed

subsection \<open>The redirect trigger\<close>

lemma redirectToGrayPage_off:
  "\<not> isGrayVersionOpen st \<Longrightarrow> redirectToGrayPage GP params st = Inr (False, st)"
  by (simp add: redirectToGrayPage_def)

lemma currentRoute_setStorageSync: "currentRoute (setStorageSync v st) = currentRoute st"
  by (simp add: currentRoute_def setStorageSync_def split: list.splits)

lemma enterQuery_setStorageSync: "enterQuery (setStorageSync v st) = enterQuery st"
  by (simp add: setStorageSync_def)

text \<open>With the toggle on, the whole of \<open>redirectToGrayPage\<close> in one equation.\<close>

lemma redirectToGrayPage_on:
  assumes "isGrayVersionOpen st"
  shows "redirectToGrayPage GP params st =
     (if list_ex (startsWith (currentRoute st)) (orDefault (grayPages params) [])
         \<and> freshVerdict params st \<noteq> isGrayVersionSync st
      then Inr (True, st\<lparr>storage := Some (decision params st),
                  trace := trace st @ [SetStorage (decision params st),
                                       RouteCall RedirectTo (corrective params st)]\<rparr>)
      else Inr (False, st\<lparr>storage := Some (decision params st),
                  trace := trace st @ [SetStorage (decision params st)]\<rparr>))"
  using assms
  by (simp add: redirectToGrayPage_def Let_def routeApiProxy_notProxy freshVerdict_def
        decision_def corrective_def currentRoute_setStorageSync enterQuery_setStorageSync
        wxRouteApi_def)
     (simp add: setStorageSync_def)

text \<open>
  C1. The specification has the eligibility of the current page decided on its route
  with the bundle prefix removed, so that a page of the gray bundle can be sent back.
  \<open>redirectToGrayPage\<close> tests the route before it removes the prefix: on the page
  \<open>grayVersion/pages/a/index\<close>, with the page list \<open>pages/a\<close>, a stored decision "gray"
  and a user who is no target any more, the route without its prefix starts with an
  entry of the list and the verdict differs from the stored decision, yet the call only
  stores the new decision and returns false.
\<close>

theorem gray_bundle_page_not_recognised:
  "startsWith (currentRoute graySession) (SUBPACKAGES_ROOT @ ''/'')
   \<and> list_ex (startsWith (removeRoot (currentRoute graySession))) [''pages/a'']
   \<and> freshVerdict (loginOf shanghaiUser) graySession \<noteq> isGrayVersionSync graySession
   \<and> redirectToGrayPage [''pages/a''] (loginOf shanghaiUser) graySession
       = Inr (False, graySession\<lparr>storage := Some (openRule\<lparr>isGrayVersion := Some False\<rparr>),
                trace := [SetStorage (openRule\<lparr>isGrayVersion := Some False\<rparr>)]\<rparr>)"
  by code_simp

text \<open>
  C2. The specification has \<open>redirectToGrayPage\<close> navigate, and return true, iff the fresh
  verdict differs from the stored decision and the current page is eligible, by one call
  of \<open>redirectTo\<close> that carries the marker, has the canary prefix iff the verdict is true,
  and carries the query parameters of the page forward. The code misses this in two
  places. On the page \<open>grayVersion/pages/a/index\<close>, opened with \<open>id=7\<close>, with the page
  list \<open>pages/a\<close>, a stored decision "gray" and a user who is no target any more, the
  verdict differs and the route without its prefix is in the list, so the claim has one
  redirect to \<open>/pages/a/index?id=7\<close>; the call stores the decision and returns false.
  And the query it puts into the url is that of the enter options, not that of the
  current page: in a session launched without parameters, on the page \<open>pages/a/index\<close>
  opened with \<open>id=7\<close>, the redirect for a new target user goes to
  \<open>/grayVersion/pages/a/index\<close>, without \<open>?id=7\<close>. Only for a caller that lists the
  pages of the gray bundle with their prefix is the redirect back issued, to
  \<open>/pages/a/index?id=7\<close>.
\<close>

theorem redirect_misses_bundle_page_and_page_query:
  "(currentRoute graySession = SUBPACKAGES_ROOT @ ''/'' @ ''pages/a/index''
    \<and> removeRoot (currentRoute graySession) = ''pages/a/index''
    \<and> list_ex (startsWith ''pages/a/index'') (orDefault (grayPages (loginOf shanghaiUser)) [])
    \<and> checkIsGrayVersionTargetUser (fieldsOf (storage graySession)) (Some shanghaiUser) = False
    \<and> isGrayVersionSync graySession = True
    \<and> redirectToGrayPage [''pages/a''] (loginOf shanghaiUser) graySession
        = Inr (False, graySession
            \<lparr>storage := Some (openRule\<lparr>isGrayVersion := Some False\<rparr>),
             trace := [SetStorage (openRule\<lparr>isGrayVersion := Some False\<rparr>)]\<rparr>))
   \<and> (options (last (pages browsing)) = [(''id'', ''7'')]
    \<and> urlParamsOf (options (last (pages browsing))) = ''?id=7''
    \<and> checkIsGrayVersionTargetUser (fieldsOf (storage browsing)) (Some beijingUser) = True
    \<and> isGrayVersionSync browsing = False
    \<and> redirectToGrayPage [''pages/a''] (loginOf beijingUser) browsing
        = Inr (True, browsing
            \<lparr>storage := Some (openRule\<lparr>isGrayVersion := Some True\<rparr>),
             trace := [SetStorage (openRule\<lparr>isGrayVersion := Some True\<rparr>),
               RouteCall RedirectTo
                 \<lparr>url = ''/grayVersion/pages/a/index'',
                  notProxy = Some True, others = []\<rparr>]\<rparr>))
   \<and> redirectToGrayPage [''pages/a'']
         \<lparr>grayPages = Some [''pages/a'', ''grayVersion/pages/a''],
          userInfo = Some shanghaiUser\<rparr> graySession
        = Inr (True, graySession
            \<lparr>storage := Some (openRule\<lparr>isGrayVersion := Some False\<rparr>),
             trace := [SetStorage (openRule\<lparr>isGrayVersion := Some False\<rparr>),
               RouteCall RedirectTo
                 \<lparr>url = ''/pages/a/index?id=7'', notProxy = Some True, others = []\<rparr>]\<rparr>)"
  by code_simp

text \<open>
  For a page outside the bundle that is the entry page, the redirect has the prefix added
  and carries the query of the enter options.
\<close>

lemma redirect_forward_url:
  "redirectToGrayPage [''pages/a''] (loginOf beijingUser) session
     = Inr (True, session
         \<lparr>storage := Some (openRule\<lparr>isGrayVersion := Some True\<rparr>),
          trace := [SetStorage (openRule\<lparr>isGrayVersion := Some True\<rparr>),
            RouteCall RedirectTo
              \<lparr>url = ''/grayVersion/pages/a/index?id=7&from=share'',
               notProxy = Some True, others = []\<rparr>]\<rparr>)"
  by code_simp

text \<open>
  C9. In every call of \<open>redirectToGrayPage\<close> the write of the newly computed decision
  comes before any navigation. No call returns with an exception. With the toggle off
  nothing happens. With the toggle on, the first event the call adds to the trace is the
  write of the stored object with \<open>isGrayVersion\<close> set to the verdict of
  \<open>checkIsGrayVersionTargetUser\<close> for the stored rule and the user; that object is what
  storage holds when the call returns, so the decision read back is the verdict; and
  every navigation event among the new events has that write at an earlier position.
\<close>

theorem persist_before_redirect:
  "\<exists>b st' new. redirectToGrayPage GP params st = Inr (b, st')
     \<and> trace st' = trace st @ new
     \<and> (\<not> isGrayVersionOpen st \<longrightarrow> new = [] \<and> st' = st)
     \<and> (isGrayVersionOpen st \<longrightarrow>
          new \<noteq> []
        \<and> new ! 0 = SetStorage ((fieldsOf (storage st))
              \<lparr>isGrayVersion := Some (checkIsGrayVersionTargetUser (fieldsOf (storage st))
                                        (userInfo params))\<rparr>)
        \<and> storage st' = Some ((fieldsOf (storage st))
              \<lparr>isGrayVersion := Some (checkIsGrayVersionTargetUser (fieldsOf (storage st))
                                        (userInfo params))\<rparr>)
        \<and> isGrayVersionSync st'
            = checkIsGrayVersionTargetUser (fieldsOf (storage st)) (userInfo params))
     \<and> (\<forall>i < length new. (\<exists>api ob. new ! i = RouteCall api ob) \<longrightarrow>
          (\<exists>j < i. new ! j = SetStorage ((fieldsOf (storage st))
              \<lparr>isGrayVersion := Some (checkIsGrayVersionTargetUser (fieldsOf (storage st))
                                        (userInfo params))\<rparr>)))"
proof -
  let ?w = "(fieldsOf (storage st))
      \<lparr>isGrayVersion := Some (checkIsGrayVersionTargetUser (fieldsOf (storage st))
                                (userInfo params))\<rparr>"
  have w: "decision params st = ?w"
    by (simp add: decision_def assignDecision_def freshVerdict_def getStorageSync_def)
  show ?thesis
  proof (cases "isGrayVersionOpen st")
    case False
    then have "redirectToGrayPage GP params st = Inr (False, st)"
      by (rule redirectToGrayPage_off)
    then show ?thesis
      using False by (intro exI [of _ False] exI [of _ st] exI [of _ "[]"]) simp
  next
    case True
    show ?thesis
    proof (cases "list_ex (startsWith (currentRoute st)) (orDefault (grayPages params) [])
           \<and> freshVerdict params st \<noteq> isGrayVersionSync st")
      case nav: True
      let ?new = "[SetStorage ?w, RouteCall RedirectTo (corrective params st)]"
      let ?st' = "st\<lparr>storage := Some ?w, trace := trace st @ ?new\<rparr>"
      have r: "redirectToGrayPage GP params st = Inr (True, ?st')"
        using nav by (simp add: redirectToGrayPage_on [OF True] w)
      have o: "\<forall>i < length ?new. (\<exists>api ob. ?new ! i = RouteCall api ob) \<longrightarrow>
            (\<exists>j < i. ?new ! j = SetStorage ?w)"
        by (auto simp: less_Suc_eq)
      have s: "isGrayVersionSync ?st'
          = checkIsGrayVersionTargetUser (fieldsOf (storage st)) (userInfo params)"
        by (simp add: isGrayVersionSync_def getStorageSync_def)
      show ?thesis
        using r o s True
        by (intro exI [of _ True] exI [of _ ?st'] exI [of _ ?new]) simp
    next
      case quiet: False
      let ?new = "[SetStorage ?w] :: 'a event list"
      let ?st' = "st\<lparr>storage := Some ?w, trace := trace st @ ?new\<rparr>"
      have r: "redirectToGrayPage GP params st = Inr (False, ?st')"
        using quiet by (simp add: redirectToGrayPage_on [OF True] w)
      have o: "\<forall>i < length ?new. (\<exists>api ob. ?new ! i = RouteCall api ob) \<longrightarrow>
            (\<exists>j < i. ?new ! j = SetStorage ?w)"
        by auto
      have s: "isGrayVersionSync ?st'
          = checkIsGrayVersionTargetUser (fieldsOf (storage st)) (userInfo params)"
        by (simp add: isGrayVersionSync_def getStorageSync_def)
      show ?thesis
        using r o s True
        by (intro exI [of _ False] exI [of _ ?st'] exI [of _ ?new]) simp
    qed
  qed
qed

theorem persist_before_redirect_witness:
  "isGrayVersionOpen session
   \<and> (\<exists>st' new. redirectToGrayPage [] (loginOf beijingUser) session = Inr (True, st')
        \<and> trace st' = trace session @ new
        \<and> new = [SetStorage \<lparr>isOpen = Some True, areaCode = Some [''11''], phonePrefix = None,
                    whiteList = None, all = None, isTest = None, isGrayVersion = Some True\<rparr>,
                  RouteCall RedirectTo
                    \<lparr>url = ''/grayVersion/pages/a/index?id=7&from=share'',
                     notProxy = Some True, others = []\<rparr>]
        \<and> (\<exists>api ob. new ! 1 = RouteCall api ob)
        \<and> (\<exists>j < 1. new ! j = SetStorage \<lparr>isOpen = Some True, areaCode = Some [''11''],
                    phonePrefix = None, whiteList = None, all = None, isTest = None,
                    isGrayVersion = Some True\<rparr>)
        \<and> storage st' = Some \<lparr>isOpen = Some True, areaCode = Some [''11''],
                    phonePrefix = None, whiteList = None, all = None, isTest = None,
                    isGrayVersion = Some True\<rparr>
        \<and> isGrayVersionSync st' = True)"
proof -
  let ?w = "\<lparr>isOpen = Some True, areaCode = Some [''11''], phonePrefix = None,
      whiteList = None, all = None, isTest = None, isGrayVersion = Some True\<rparr>"
  let ?c = "\<lparr>url = ''/grayVersion/pages/a/index?id=7&from=share'',
      notProxy = Some True, others = []\<rparr> :: unit nav_object"
  have on: "isGrayVersionOpen session"
    by (simp add: session_def)
  have verdict: "checkIsGrayVersionTargetUser (fieldsOf (storage session))
      (userInfo (loginOf beijingUser)) = True"
    by code_simp
  have written: "(fieldsOf (storage session))\<lparr>isGrayVersion := Some True\<rparr> = ?w"
    by code_simp
  obtain b st' new where
    run: "redirectToGrayPage [] (loginOf beijingUser) session = Inr (b, st')"
    and tr: "trace st' = trace session @ new"
    and first: "new \<noteq> []" "new ! 0 = SetStorage ?w"
    and kept: "storage st' = Some ?w" "isGrayVersionSync st' = True"
    and ord: "\<forall>i < length new. (\<exists>api ob. new ! i = RouteCall api ob) \<longrightarrow>
          (\<exists>j < i. new ! j = SetStorage ?w)"
    using persist_before_redirect [of "[]" "loginOf beijingUser" session] on
    unfolding verdict written by blast
  have "redirectToGrayPage [] (loginOf beijingUser) session
     = Inr (True, session\<lparr>storage := Some ?w, trace := trace session @ [SetStorage ?w,
              RouteCall RedirectTo ?c]\<rparr>)"
    by code_simp
  with run tr have b: "b = True" and new: "new = [SetStorage ?w, RouteCall RedirectTo ?c]"
    by auto
  have call: "\<exists>api ob. new ! 1 = RouteCall api ob"
    using new by simp
  moreover have "1 < length new"
    using new by simp
  ultimately have "\<exists>j < 1. new ! j = SetStorage ?w"
    using ord by blast
  with run tr b new call kept on show ?thesis
    by blast
qed

text \<open>
  After a call with the toggle on, a second call for the same user, in any state that
  has the storage the first call left, issues no navigation: the verdict does not read
  the stored decision, so it equals the decision just stored.
\<close>

lemma verdict_ignores_decision:
  "checkIsGrayVersionTargetUser (rule\<lparr>isGrayVersion := v\<rparr>) user
     = checkIsGrayVersionTargetUser rule user"
  by (simp add: checkIsGrayVersionTargetUser_def)

lemma second_call_is_quiet:
  assumes "isGrayVersionOpen st"
    and "redirectToGrayPage GP params st = Inr (b, st')"
    and "isGrayVersionOpen st''" and "storage st'' = storage st'"
    and "userInfo params' = userInfo params"
  shows "redirectToGrayPage GP params' st''
           = Inr (False, st''\<lparr>trace := trace st'' @ [SetStorage (decision params st)]\<rparr>)"
proof -
  have stored: "storage st' = Some (decision params st)"
    using assms(1,2) by (auto simp: redirectToGrayPage_on split: if_splits)
  have same: "freshVerdict params' st'' = freshVerdict params st"
    using assms(4,5) stored
    by (simp add: freshVerdict_def getStorageSync_def decision_def assignDecision_def
          verdict_ignores_decision)
  have prev: "isGrayVersionSync st'' = freshVerdict params st"
    using assms(4) stored
    by (simp add: isGrayVersionSync_def getStorageSync_def decision_def assignDecision_def)
  have d: "decision params' st'' = decision params st"
    using assms(4) stored same
    by (simp add: decision_def assignDecision_def getStorageSync_def)
  have "st''\<lparr>storage := Some (decision params st),
             trace := trace st'' @ [SetStorage (decision params st)]\<rparr>
      = st''\<lparr>trace := trace st'' @ [SetStorage (decision params st)]\<rparr>"
    using assms(4) stored by (cases st'') simp
  then show ?thesis
    using same prev d by (simp add: redirectToGrayPage_on [OF assms(3)])
qed

end
